theory Spec2Isabelle
  imports Complex_Main
begin

section \<open>The jet animation of \<open>helloworld/main.cpp\<close>\<close>

text \<open>
  The program is one translation unit with two functions, \<open>drawJet\<close> and \<open>main\<close>, written
  against the Borland Graphics Interface (\<open>graphics.h\<close>), \<open>conio.h\<close> and \<open>dos.h\<close>. The library
  is not part of the repository. Its process-wide drawing state is modelled as a record that
  every call takes and returns; every call of the program is appended to a log, so that the
  order of the calls can be read off the final state.

  The model covers the runs in which \<open>initgraph\<close> acquires a surface. What the library
  does when it cannot, and whether its later calls return then, is decided by library code
  that is not in the repository.

  C's \<open>int\<close> is taken to be 32 bits wide and is modelled by the mathematical integers.
  Signed overflow is undefined behaviour in C and is outside the model, so the model is
  the program only where every value computed lies between \<open>INT_MIN\<close> and \<open>INT_MAX\<close>.
  For the animation this is the case when \<open>getmaxx() \<le> INT_MAX - 120\<close>: in the body of the
  loop \<open>x\<close> lies between 0 and \<open>getmaxx() - 1\<close> (lemma \<open>loop_xs_bounds\<close>), the arguments
  of the calls lie between \<open>-20\<close> and \<open>getmaxx() + 119\<close> (lemma \<open>animation_args_in_range\<close>),
  and every \<open>x + 5\<close> is in range (lemma \<open>loop_steps_in_range\<close>). The statements about the
  loop carry this bound as a hypothesis; beyond it \<open>x += 5\<close> would overflow before the loop
  test fails.
\<close>

subsection \<open>Constants of \<open>graphics.h\<close>\<close>

datatype colors =
    BLACK | BLUE | GREEN | CYAN | RED | MAGENTA | BROWN | LIGHTGRAY
  | DARKGRAY | LIGHTBLUE | LIGHTGREEN | LIGHTCYAN | LIGHTRED | LIGHTMAGENTA | YELLOW | WHITE

datatype fill_patterns =
    EMPTY_FILL | SOLID_FILL | LINE_FILL | LTSLASH_FILL | SLASH_FILL | BKSLASH_FILL
  | LTBKSLASH_FILL | HATCH_FILL | XHATCH_FILL | INTERLEAVE_FILL | WIDE_DOT_FILL
  | CLOSE_DOT_FILL | USER_FILL

definition DETECT :: int where
  "DETECT = 0"

subsection \<open>The range of \<open>int\<close>\<close>

definition INT_MAX :: int where
  "INT_MAX = 2147483647"

definition INT_MIN :: int where
  "INT_MIN = - 2147483648"

definition int_range :: "int \<Rightarrow> bool" where
  "int_range v = (INT_MIN \<le> v \<and> v \<le> INT_MAX)"

subsection \<open>The library state and the log of calls\<close>

type_synonym point = "int \<times> int"
type_synonym pixmap = "point \<Rightarrow> colors"

text \<open>One entry of the log per library call of the program, with the arguments passed.\<close>

datatype call =
    Initgraph int string
  | Setbkcolor colors
  | Cleardevice
  | Setcolor colors
  | Setfillstyle fill_patterns colors
  | Rectangle int int int int
  | Floodfill int int colors
  | Line int int int int
  | Fillellipse int int int int
  | Delay int
  | Outtextxy int int string
  | Getch
  | Closegraph

text \<open>
  \<open>color\<close>, \<open>fillstyle\<close> and \<open>bkcolor\<close> are the attributes the program sets; \<open>maxx\<close> and
  \<open>maxy\<close> are what \<open>getmaxx()\<close> and \<open>getmaxy()\<close> report; \<open>pixels\<close> is the content of the
  drawing surface; \<open>kbd\<close> holds the key codes waiting to be read; \<open>calls\<close> is the log.
  \<open>getmaxx()\<close> is the largest x-coordinate of the surface: its columns are \<open>0\<close> to
  \<open>getmaxx()\<close>.
\<close>

record bgi =
  color :: colors
  fillstyle :: "fill_patterns \<times> colors"
  bkcolor :: colors
  maxx :: int
  maxy :: int
  pixels :: pixmap
  kbd :: "int list"
  calls :: "call list"

text \<open>
  How the library turns a drawing call into pixels is not in the repository. It is a
  parameter of the model: a function of the three attributes in effect, the call and the
  surface content before the call. Attributes the program never sets (line style, write
  mode, font, viewport) are the same throughout a run and are part of this function.
\<close>

type_synonym rasterizer =
  "colors \<Rightarrow> fill_patterns \<times> colors \<Rightarrow> colors \<Rightarrow> call \<Rightarrow> pixmap \<Rightarrow> pixmap"

definition blank :: "colors \<Rightarrow> pixmap" where
  "blank c = (\<lambda>p. c)"

definition issue :: "call \<Rightarrow> bgi \<Rightarrow> bgi" where
  "issue c s = s\<lparr>calls := calls s @ [c]\<rparr>"

definition draw :: "rasterizer \<Rightarrow> call \<Rightarrow> bgi \<Rightarrow> bgi" where
  "draw R c s =
     issue c (s\<lparr>pixels := R (color s) (fillstyle s) (bkcolor s) c (pixels s)\<rparr>)"

subsection \<open>The library calls the program makes\<close>

text \<open>
  \<open>initgraph\<close>, having acquired a surface. The state it sets up (limits, attributes, surface
  content) is the state the model starts from, and is not constrained. The driver and mode
  it writes back through its pointer arguments are never read by the program and are left
  out.
\<close>

definition initgraph :: "int \<Rightarrow> string \<Rightarrow> bgi \<Rightarrow> bgi" where
  "initgraph gd path s = issue (Initgraph gd path) s"

definition setbkcolor :: "colors \<Rightarrow> bgi \<Rightarrow> bgi" where
  "setbkcolor c s = issue (Setbkcolor c) (s\<lparr>bkcolor := c\<rparr>)"

definition cleardevice :: "bgi \<Rightarrow> bgi" where
  "cleardevice s = issue Cleardevice (s\<lparr>pixels := blank (bkcolor s)\<rparr>)"

definition setcolor :: "colors \<Rightarrow> bgi \<Rightarrow> bgi" where
  "setcolor c s = issue (Setcolor c) (s\<lparr>color := c\<rparr>)"

definition setfillstyle :: "fill_patterns \<Rightarrow> colors \<Rightarrow> bgi \<Rightarrow> bgi" where
  "setfillstyle p c s = issue (Setfillstyle p c) (s\<lparr>fillstyle := (p, c)\<rparr>)"

definition rectangle :: "rasterizer \<Rightarrow> int \<Rightarrow> int \<Rightarrow> int \<Rightarrow> int \<Rightarrow> bgi \<Rightarrow> bgi" where
  "rectangle R l t r b s = draw R (Rectangle l t r b) s"

definition floodfill :: "rasterizer \<Rightarrow> int \<Rightarrow> int \<Rightarrow> colors \<Rightarrow> bgi \<Rightarrow> bgi" where
  "floodfill R x y border s = draw R (Floodfill x y border) s"

definition line :: "rasterizer \<Rightarrow> int \<Rightarrow> int \<Rightarrow> int \<Rightarrow> int \<Rightarrow> bgi \<Rightarrow> bgi" where
  "line R x1 y1 x2 y2 s = draw R (Line x1 y1 x2 y2) s"

definition fillellipse :: "rasterizer \<Rightarrow> int \<Rightarrow> int \<Rightarrow> int \<Rightarrow> int \<Rightarrow> bgi \<Rightarrow> bgi" where
  "fillellipse R x y xradius yradius s = draw R (Fillellipse x y xradius yradius) s"

definition outtextxy :: "rasterizer \<Rightarrow> int \<Rightarrow> int \<Rightarrow> string \<Rightarrow> bgi \<Rightarrow> bgi" where
  "outtextxy R x y text s = draw R (Outtextxy x y text) s"

definition getmaxx :: "bgi \<Rightarrow> int" where
  "getmaxx s = maxx s"

definition getmaxy :: "bgi \<Rightarrow> int" where
  "getmaxy s = maxy s"

definition delay :: "int \<Rightarrow> bgi \<Rightarrow> bgi" where
  "delay ms s = issue (Delay ms) s"

text \<open>
  \<open>getch\<close> waits until a key is available and removes it from the keyboard buffer. With no
  key ever arriving it does not return: the result is \<open>None\<close>.
\<close>

definition getch :: "bgi \<Rightarrow> (int \<times> bgi) option" where
  "getch s = (case kbd s of [] \<Rightarrow> None | k # ks \<Rightarrow> Some (k, issue Getch (s\<lparr>kbd := ks\<rparr>)))"

definition closegraph :: "bgi \<Rightarrow> bgi" where
  "closegraph s = issue Closegraph s"

text \<open>C's \<open>/\<close> on \<open>int\<close> truncates towards zero.\<close>

definition c_div :: "int \<Rightarrow> int \<Rightarrow> int" where
  "c_div a b = (if (a < 0) = (b < 0) then \<bar>a\<bar> div \<bar>b\<bar> else - (\<bar>a\<bar> div \<bar>b\<bar>))"

subsection \<open>\<open>drawJet\<close>\<close>

definition drawJet :: "rasterizer \<Rightarrow> int \<Rightarrow> int \<Rightarrow> bgi \<Rightarrow> bgi" where
  "drawJet R x y s0 =
     (let s = setcolor WHITE s0;
          s = setfillstyle SOLID_FILL WHITE s;
          s = rectangle R x y (x + 100) (y + 20) s;
          s = floodfill R (x + 1) (y + 1) WHITE s;
          s = line R (x + 100) (y + 10) (x + 120) y s;
          s = line R (x + 100) (y + 10) (x + 120) (y + 20) s;
          s = line R x y (x - 20) (y + 10) s;
          s = line R (x - 20) (y + 10) x (y + 20) s;
          s = setfillstyle SOLID_FILL BLUE s;
          s = fillellipse R (x + 30) (y + 10) 5 5 s;
          s = fillellipse R (x + 50) (y + 10) 5 5 s
      in s)"

subsection \<open>\<open>main\<close>\<close>

text \<open>The statements before the loop (lines 30 to 35).\<close>

definition startup :: "bgi \<Rightarrow> bgi" where
  "startup s0 =
     (let gd = DETECT;
          s = initgraph gd '''' s0;
          s = setbkcolor BLUE s;
          s = cleardevice s
      in s)"

text \<open>The body of the loop (lines 39 to 41).\<close>

definition frame :: "rasterizer \<Rightarrow> int \<Rightarrow> bgi \<Rightarrow> bgi" where
  "frame R x s0 =
     (let s = cleardevice s0;
          s = drawJet R x 200 s;
          s = delay 30 s
      in s)"

text \<open>The loop \<open>for (int x = 0; x < getmaxx(); x += 5)\<close>, entered with a value of \<open>x\<close>.\<close>

function animation :: "rasterizer \<Rightarrow> int \<Rightarrow> bgi \<Rightarrow> bgi" where
  "animation R x s = (if x < getmaxx s then animation R (x + 5) (frame R x s) else s)"
  by pat_completeness auto
termination
  by (relation "measure (\<lambda>(R, x, s). nat (getmaxx s - x))")
     (simp_all add: getmaxx_def frame_def drawJet_def delay_def cleardevice_def
        setcolor_def setfillstyle_def rectangle_def floodfill_def line_def fillellipse_def
        draw_def issue_def Let_def)

text \<open>The values the loop variable takes in the body, for a bound \<open>w\<close> that does not change.\<close>

function loop_xs :: "int \<Rightarrow> int \<Rightarrow> int list" where
  "loop_xs w x = (if x < w then x # loop_xs w (x + 5) else [])"
  by pat_completeness auto
termination
  by (relation "measure (\<lambda>(w, x). nat (w - x))") simp_all

text \<open>How the process ends: with an exit code, or never, waiting for a key.\<close>

datatype outcome = Exit int | Blocked

text \<open>The statements after the loop (lines 45 to 48).\<close>

definition finish :: "rasterizer \<Rightarrow> bgi \<Rightarrow> outcome \<times> bgi" where
  "finish R s0 =
     (let s = outtextxy R (c_div (getmaxx s0) 2 - 100) (getmaxy s0 - 30)
                ''Press any key to exit...'' s0
      in case getch s of
           None \<Rightarrow> (Blocked, issue Getch s)
         | Some (k, s) \<Rightarrow> (Exit 0, closegraph s))"

definition main :: "rasterizer \<Rightarrow> bgi \<Rightarrow> outcome \<times> bgi" where
  "main R s0 = finish R (animation R 0 (startup s0))"

subsection \<open>Reading the log\<close>

text \<open>The shapes of the specification: a rectangle, a line segment, a filled ellipse. The
  attribute setters, the flood fill of the rectangle and the other calls are no shapes.\<close>

datatype shape = Rect | Segment | Ellipse

fun shape_of :: "call \<Rightarrow> shape option" where
  "shape_of (Rectangle l t r b) = Some Rect"
| "shape_of (Line x1 y1 x2 y2) = Some Segment"
| "shape_of (Fillellipse x y rx ry) = Some Ellipse"
| "shape_of c = None"

definition shapes :: "call list \<Rightarrow> shape list" where
  "shapes cs = List.map_filter shape_of cs"

text \<open>The calls a function adds to the log of \<open>s\<close> on the way to \<open>s'\<close>.\<close>

definition issued :: "bgi \<Rightarrow> bgi \<Rightarrow> call list" where
  "issued s s' = drop (length (calls s)) (calls s')"




text \<open>The box a rectangle or an ellipse is asked to cover, and strict containment of boxes.\<close>

fun box :: "call \<Rightarrow> (int \<times> int \<times> int \<times> int) option" where
  "box (Rectangle l t r b) = Some (l, t, r, b)"
| "box (Fillellipse x y rx ry) = Some (x - rx, y - ry, x + rx, y + ry)"
| "box c = None"

definition inside :: "call \<Rightarrow> call \<Rightarrow> bool" where
  "inside c d =
     (case (box c, box d) of
        (Some (l, t, r, b), Some (l', t', r', b')) \<Rightarrow> l' < l \<and> t' < t \<and> r < r' \<and> b < b'
      | _ \<Rightarrow> False)"



text \<open>The \<open>int\<close> arguments of a call.\<close>

fun int_args :: "call \<Rightarrow> int list" where
  "int_args (Initgraph gd path) = [gd]"
| "int_args (Rectangle l t r b) = [l, t, r, b]"
| "int_args (Floodfill x y c) = [x, y]"
| "int_args (Line x1 y1 x2 y2) = [x1, y1, x2, y2]"
| "int_args (Fillellipse x y rx ry) = [x, y, rx, ry]"
| "int_args (Delay ms) = [ms]"
| "int_args (Outtextxy x y t) = [x, y]"
| "int_args c = []"

subsection \<open>A concrete device\<close>

text \<open>A rasterizer that marks one pixel per drawing call: the first point of an outline in
  the drawing colour, the seed or centre of a fill in the fill colour.\<close>

fun dots :: rasterizer where
  "dots c f bk (Rectangle l t r b) p = p((l, t) := c)"
| "dots c f bk (Line x1 y1 x2 y2) p = p((x1, y1) := c)"
| "dots c f bk (Floodfill x y border) p = p((x, y) := snd f)"
| "dots c f bk (Fillellipse x y rx ry) p = p((x, y) := snd f)"
| "dots c f bk (Outtextxy x y t) p = p((x, y) := c)"
| "dots c f bk k p = p"

text \<open>A library state: limits \<open>w\<close> and \<open>h\<close>, the keys \<open>ks\<close> waiting, a black surface and
  an empty log.\<close>

definition device :: "int \<Rightarrow> int \<Rightarrow> int list \<Rightarrow> bgi" where
  "device w h ks =
     \<lparr>color = WHITE, fillstyle = (SOLID_FILL, WHITE), bkcolor = BLACK, maxx = w, maxy = h,
      pixels = blank BLACK, kbd = ks, calls = []\<rparr>"

section \<open>Properties\<close>

subsection \<open>Auxiliary facts\<close>

declare animation.simps [simp del] loop_xs.simps [simp del]

lemmas api_defs = getmaxx_def getmaxy_def delay_def cleardevice_def setbkcolor_def
  setcolor_def setfillstyle_def rectangle_def floodfill_def line_def fillellipse_def
  outtextxy_def closegraph_def initgraph_def draw_def issue_def

lemma drawJet_calls:
  "calls (drawJet R x y s) = calls s @
     [Setcolor WHITE, Setfillstyle SOLID_FILL WHITE,
      Rectangle x y (x + 100) (y + 20), Floodfill (x + 1) (y + 1) WHITE,
      Line (x + 100) (y + 10) (x + 120) y, Line (x + 100) (y + 10) (x + 120) (y + 20),
      Line x y (x - 20) (y + 10), Line (x - 20) (y + 10) x (y + 20),
      Setfillstyle SOLID_FILL BLUE,
      Fillellipse (x + 30) (y + 10) 5 5, Fillellipse (x + 50) (y + 10) 5 5]"
  by (simp add: drawJet_def api_defs Let_def)

lemma drawJet_pixels:
  "pixels (drawJet R x y s) =
     (R WHITE (SOLID_FILL, BLUE) (bkcolor s) (Fillellipse (x + 50) (y + 10) 5 5)
     (R WHITE (SOLID_FILL, BLUE) (bkcolor s) (Fillellipse (x + 30) (y + 10) 5 5)
     (R WHITE (SOLID_FILL, WHITE) (bkcolor s) (Line (x - 20) (y + 10) x (y + 20))
     (R WHITE (SOLID_FILL, WHITE) (bkcolor s) (Line x y (x - 20) (y + 10))
     (R WHITE (SOLID_FILL, WHITE) (bkcolor s) (Line (x + 100) (y + 10) (x + 120) (y + 20))
     (R WHITE (SOLID_FILL, WHITE) (bkcolor s) (Line (x + 100) (y + 10) (x + 120) y)
     (R WHITE (SOLID_FILL, WHITE) (bkcolor s) (Floodfill (x + 1) (y + 1) WHITE)
     (R WHITE (SOLID_FILL, WHITE) (bkcolor s) (Rectangle x y (x + 100) (y + 20))
        (pixels s)))))))))"
  by (simp add: drawJet_def api_defs Let_def)

lemma drawJet_fields [simp]:
  "color (drawJet R x y s) = WHITE"
  "fillstyle (drawJet R x y s) = (SOLID_FILL, BLUE)"
  "bkcolor (drawJet R x y s) = bkcolor s"
  "maxx (drawJet R x y s) = maxx s"
  "maxy (drawJet R x y s) = maxy s"
  "kbd (drawJet R x y s) = kbd s"
  by (simp_all add: drawJet_def api_defs Let_def)

lemma frame_fields [simp]:
  "color (frame R x s) = WHITE"
  "fillstyle (frame R x s) = (SOLID_FILL, BLUE)"
  "bkcolor (frame R x s) = bkcolor s"
  "maxx (frame R x s) = maxx s"
  "maxy (frame R x s) = maxy s"
  "kbd (frame R x s) = kbd s"
  by (simp_all add: frame_def api_defs Let_def)

lemma frame_calls:
  "calls (frame R x s) = calls s @ Cleardevice # 
     [Setcolor WHITE, Setfillstyle SOLID_FILL WHITE,
      Rectangle x 200 (x + 100) 220, Floodfill (x + 1) 201 WHITE,
      Line (x + 100) 210 (x + 120) 200, Line (x + 100) 210 (x + 120) 220,
      Line x 200 (x - 20) 210, Line (x - 20) 210 x 220,
      Setfillstyle SOLID_FILL BLUE,
      Fillellipse (x + 30) 210 5 5, Fillellipse (x + 50) 210 5 5] @ [Delay 30]"
  by (simp add: frame_def delay_def cleardevice_def issue_def drawJet_calls Let_def)

lemma frame_pixels:
  "pixels (frame R x s) = pixels (drawJet R x 200 (s\<lparr>pixels := blank (bkcolor s)\<rparr>))"
  by (simp add: frame_def delay_def cleardevice_def issue_def drawJet_pixels Let_def)

lemma fold_frame_fields [simp]:
  "bkcolor (fold (frame R) xs s) = bkcolor s"
  "maxx (fold (frame R) xs s) = maxx s"
  "maxy (fold (frame R) xs s) = maxy s"
  "kbd (fold (frame R) xs s) = kbd s"
  by (induction xs arbitrary: s; simp)+

lemma animation_fold:
  "animation R x s = fold (frame R) (loop_xs (getmaxx s) x) s"
proof (induction R x s rule: animation.induct)
  case (1 R x s)
  show ?case
  proof (cases "x < getmaxx s")
    case True
    have g: "getmaxx (frame R x s) = getmaxx s" by (simp add: getmaxx_def)
    have "animation R x s = animation R (x + 5) (frame R x s)"
      using True by (subst animation.simps) simp
    also have "\<dots> = fold (frame R) (loop_xs (getmaxx s) (x + 5)) (frame R x s)"
      using 1 [OF True] by (simp only: g)
    also have "\<dots> = fold (frame R) (x # loop_xs (getmaxx s) (x + 5)) s" by simp
    also have "x # loop_xs (getmaxx s) (x + 5) = loop_xs (getmaxx s) x"
      using True by (subst (2) loop_xs.simps) simp
    finally show ?thesis .
  next
    case False
    have "animation R x s = s" using False by (subst animation.simps) simp
    moreover have "loop_xs (getmaxx s) x = []" using False by (subst loop_xs.simps) simp
    ultimately show ?thesis by simp
  qed
qed

lemma upt_Suc_shift: "[0..<Suc m] = 0 # map Suc [0..<m]"
proof -
  have "[0..<Suc m] = 0 # [Suc 0..<Suc m]" by (rule upt_conv_Cons) simp
  then show ?thesis by (simp only: map_Suc_upt)
qed

lemma loop_count_step:
  assumes "x < (w::int)"
  shows "nat ((w - x + 4) div 5) = Suc (nat ((w - (x + 5) + 4) div 5))"
proof -
  have a: "(w - x + 4) div 5 = (w - (x + 5) + 4) div 5 + 1" by presburger
  have b: "0 \<le> (w - (x + 5) + 4) div 5" using assms by presburger
  show ?thesis unfolding a using b by (simp add: Suc_nat_eq_nat_zadd1)
qed

lemma loop_xs_closed:
  "loop_xs w x = map (\<lambda>k. x + 5 * int k) [0..<nat ((w - x + 4) div 5)]"
proof (induction w x rule: loop_xs.induct)
  case (1 w x)
  show ?case
  proof (cases "x < w")
    case True
    define m where "m = nat ((w - (x + 5) + 4) div 5)"
    have n: "nat ((w - x + 4) div 5) = Suc m"
      unfolding m_def using True by (rule loop_count_step)
    have "loop_xs w x = x # loop_xs w (x + 5)" using True by (subst loop_xs.simps) simp
    also have "\<dots> = x # map (\<lambda>k. x + 5 + 5 * int k) [0..<m]"
      using 1 True unfolding m_def by simp
    also have "\<dots> = map (\<lambda>k. x + 5 * int k) (0 # map Suc [0..<m])"
      by (simp add: comp_def algebra_simps)
    also have "\<dots> = map (\<lambda>k. x + 5 * int k) [0..<Suc m]"
      by (simp only: upt_Suc_shift)
    finally show ?thesis unfolding n .
  next
    case False
    then have "nat ((w - x + 4) div 5) = 0" by simp
    moreover have "loop_xs w x = []" using False by (subst loop_xs.simps) simp
    ultimately show ?thesis by simp
  qed
qed

lemma ceil5: "\<lceil>real_of_int w / 5\<rceil> = (w + 4) div 5"
proof -
  have "\<lceil>real_of_int w / real_of_int 5\<rceil> = - (- w div 5)" by (rule ceiling_divide_eq_div)
  also have "\<dots> = (w + 4) div 5" by presburger
  finally show ?thesis by simp
qed

lemma loop_xs_ceil:
  "loop_xs w 0 = map (\<lambda>k. 5 * int k) [0..<nat \<lceil>real_of_int w / 5\<rceil>]"
  by (simp add: loop_xs_closed ceil5)

lemma loop_xs_bounds: "x \<in> set (loop_xs w 0) \<Longrightarrow> 0 \<le> x \<and> x < w"
proof -
  assume "x \<in> set (loop_xs w 0)"
  then obtain k where k: "x = 5 * int k" "k < nat ((w + 4) div 5)"
    by (auto simp: loop_xs_closed)
  from k(2) have "int k < (w + 4) div 5" by simp
  then have "5 * int k < w" by presburger
  with k(1) show ?thesis by simp
qed

lemma loop_xs_length: "length (loop_xs w 0) = nat \<lceil>real_of_int w / 5\<rceil>"
  by (simp add: loop_xs_ceil)

lemma loop_xs_800: "loop_xs 800 0 = map (\<lambda>k. 5 * int k) [0..<160]"
  by (simp add: loop_xs_closed)

lemma loop_xs_799: "loop_xs 799 0 = map (\<lambda>k. 5 * int k) [0..<160]"
  by (simp add: loop_xs_closed)

lemma last_map_upt: "0 < n \<Longrightarrow> last (map f [0..<n]) = f (n - 1)"
  by (cases n) simp_all

lemma loop_xs_last: "0 < w \<Longrightarrow> last (loop_xs w 0) = 5 * ((w - 1) div 5)"
proof -
  assume w: "0 < w"
  then have n: "0 < nat ((w + 4) div 5)" by simp
  have "last (loop_xs w 0) = 5 * int (nat ((w + 4) div 5) - 1)"
    using last_map_upt [OF n] by (simp add: loop_xs_closed)
  also have "int (nat ((w + 4) div 5) - 1) = (w + 4) div 5 - 1" using n by simp
  also have "\<dots> = (w - 1) div 5" by presburger
  finally show ?thesis .
qed



lemma loop_xs_set: "set (loop_xs w 0) = {x. 0 \<le> x \<and> x < w \<and> 5 dvd x}"
proof (rule set_eqI, rule iffI)
  fix x assume "x \<in> set (loop_xs w 0)"
  then obtain k where k: "x = 5 * int k" "k < nat ((w + 4) div 5)"
    by (auto simp: loop_xs_closed)
  from k(2) have "int k < (w + 4) div 5" by simp
  then have "5 * int k < w" by presburger
  with k(1) show "x \<in> {x. 0 \<le> x \<and> x < w \<and> 5 dvd x}" by simp
next
  fix x assume "x \<in> {x. 0 \<le> x \<and> x < w \<and> 5 dvd x}"
  then have x: "0 \<le> x" "x < w" "5 dvd x" by simp_all
  then obtain j where j: "x = 5 * j" by (auto elim: dvdE)
  with x have j0: "0 \<le> j" by simp
  from j x(2) have "j < (w + 4) div 5" by presburger
  with j0 have "nat j \<in> {0..<nat ((w + 4) div 5)}" by simp
  moreover have "x = 5 * int (nat j)" using j j0 by simp
  ultimately have "x \<in> (\<lambda>k. 5 * int k) ` {0..<nat ((w + 4) div 5)}" by (rule image_eqI [rotated])
  then show "x \<in> set (loop_xs w 0)" by (simp add: loop_xs_closed)
qed

lemma loop_xs_sorted: "sorted_wrt (\<lambda>a b. a < b) (loop_xs w 0)"
  by (simp add: loop_xs_closed sorted_wrt_map sorted_wrt_iff_nth_less)

lemma loop_xs_nth: "i < length (loop_xs w 0) \<Longrightarrow> loop_xs w 0 ! i = 5 * int i"
  by (simp add: loop_xs_closed)

lemma loop_xs_exit: "w \<le> 5 * int (length (loop_xs w 0))"
proof -
  have "w \<le> 5 * ((w + 4) div 5)" by presburger
  also have "\<dots> \<le> 5 * int (nat ((w + 4) div 5))" by simp
  finally show ?thesis by (simp add: loop_xs_closed)
qed

lemma frame_issued_any: "issued t (frame R x t) = issued s (frame R x s)"
  by (simp add: issued_def frame_calls)

lemma frame_issued_length: "length (issued s (frame R x s)) = 13"
  by (simp add: issued_def frame_calls)

lemma fold_frame_issued:
  "calls (fold (frame R) xs s) = calls s @ concat (map (\<lambda>x. issued s (frame R x s)) xs)"
proof (induction xs arbitrary: s)
  case Nil
  show ?case by simp
next
  case (Cons a xs)
  have f: "calls (frame R a s) = calls s @ issued s (frame R a s)"
    by (simp add: issued_def frame_calls)
  have "calls (fold (frame R) (a # xs) s) = calls (fold (frame R) xs (frame R a s))" by simp
  also have "\<dots> = calls (frame R a s)
      @ concat (map (\<lambda>x. issued (frame R a s) (frame R x (frame R a s))) xs)"
    by (rule Cons.IH)
  also have "(\<lambda>x. issued (frame R a s) (frame R x (frame R a s))) = (\<lambda>x. issued s (frame R x s))"
    by (rule ext) (rule frame_issued_any)
  finally show ?case by (simp add: f)
qed

lemma animation_issued:
  "issued s (animation R 0 s) = concat (map (\<lambda>x. issued s (frame R x s)) (loop_xs (getmaxx s) 0))"
  by (simp add: issued_def animation_fold fold_frame_issued)

lemma length_concat_const:
  "(\<And>x. length (f x) = n) \<Longrightarrow> length (concat (map f xs)) = n * length xs"
  by (induction xs) simp_all

lemma animation_issued_length:
  "length (issued s (animation R 0 s)) = 13 * length (loop_xs (getmaxx s) 0)"
  unfolding animation_issued by (rule length_concat_const) (rule frame_issued_length)

lemma loop_xs_exit_upper: "0 < w \<Longrightarrow> 5 * int (length (loop_xs w 0)) < w + 5"
proof -
  assume "0 < w"
  then have "0 \<le> (w + 4) div 5" by simp
  then have "5 * int (nat ((w + 4) div 5)) = 5 * ((w + 4) div 5)" by simp
  also have "\<dots> < w + 5" by presburger
  finally show ?thesis by (simp add: loop_xs_closed)
qed





lemma drawJet_pixels_cong:
  "pixels sa = pixels sb \<Longrightarrow> bkcolor sa = bkcolor sb \<Longrightarrow>
   pixels (drawJet R x y sa) = pixels (drawJet R x y sb)"
  by (simp add: drawJet_pixels)

lemma frame_pixels_cong:
  "bkcolor sa = bkcolor sb \<Longrightarrow> pixels (frame R x sa) = pixels (frame R x sb)"
  by (simp add: frame_pixels drawJet_pixels)

lemma fold_frame_pixels:
  "xs \<noteq> [] \<Longrightarrow>
   pixels (fold (frame R) xs s) = pixels (drawJet R (last xs) 200 (s\<lparr>pixels := blank (bkcolor s)\<rparr>))"
proof (induction xs arbitrary: s)
  case Nil
  then show ?case by simp
next
  case (Cons a xs)
  show ?case
  proof (cases "xs = []")
    case True
    then show ?thesis by (simp add: frame_pixels)
  next
    case False
    have "pixels (fold (frame R) (a # xs) s) = pixels (fold (frame R) xs (frame R a s))" by simp
    also have "\<dots> = pixels (drawJet R (last xs) 200
        ((frame R a s)\<lparr>pixels := blank (bkcolor (frame R a s))\<rparr>))"
      using False by (rule Cons.IH)
    also have "\<dots> = pixels (drawJet R (last xs) 200 (s\<lparr>pixels := blank (bkcolor s)\<rparr>))"
      by (rule drawJet_pixels_cong) simp_all
    finally show ?thesis using False by simp
  qed
qed

lemma startup_fields [simp]:
  "bkcolor (startup s) = BLUE"
  "pixels (startup s) = blank BLUE"
  "maxx (startup s) = maxx s"
  "maxy (startup s) = maxy s"
  "kbd (startup s) = kbd s"
  "calls (startup s) = calls s @ [Initgraph DETECT [], Setbkcolor BLUE, Cleardevice]"
  by (simp_all add: startup_def api_defs Let_def)

lemma animation_fields [simp]:
  "bkcolor (animation R x s) = bkcolor s"
  "maxx (animation R x s) = maxx s"
  "maxy (animation R x s) = maxy s"
  "kbd (animation R x s) = kbd s"
  by (simp_all add: animation_fold)

lemma finish_key:
  "kbd s = k # ks \<Longrightarrow>
   finish R s = (Exit 0,
     s\<lparr>pixels := R (color s) (fillstyle s) (bkcolor s)
          (Outtextxy (c_div (maxx s) 2 - 100) (maxy s - 30) ''Press any key to exit...'') (pixels s),
       kbd := ks,
       calls := calls s @ [Outtextxy (c_div (maxx s) 2 - 100) (maxy s - 30) ''Press any key to exit...'',
                           Getch, Closegraph]\<rparr>)"
  by (simp add: finish_def getch_def api_defs Let_def)

lemma finish_no_key:
  "kbd s = [] \<Longrightarrow>
   finish R s = (Blocked,
     s\<lparr>pixels := R (color s) (fillstyle s) (bkcolor s)
          (Outtextxy (c_div (maxx s) 2 - 100) (maxy s - 30) ''Press any key to exit...'') (pixels s),
       calls := calls s @ [Outtextxy (c_div (maxx s) 2 - 100) (maxy s - 30) ''Press any key to exit...'',
                           Getch]\<rparr>)"
  by (simp add: finish_def getch_def api_defs Let_def)

lemma finish_bkcolor [simp]: "bkcolor (snd (finish R s)) = bkcolor s"
  by (cases "kbd s") (simp_all add: finish_key finish_no_key)


lemma list_all_concat_map:
  "(\<And>x. x \<in> set xs \<Longrightarrow> list_all P (f x)) \<Longrightarrow> list_all P (concat (map f xs))"
  by (induction xs) simp_all

lemma frame_args_in_range:
  "0 \<le> x \<Longrightarrow> x \<le> INT_MAX - 121 \<Longrightarrow>
   list_all int_range (concat (map int_args (issued s (frame R x s))))"
  by (simp add: issued_def frame_calls int_range_def INT_MAX_def INT_MIN_def)


lemma animation_args_in_range:
  assumes "getmaxx s \<le> INT_MAX - 120"
  shows "list_all int_range (concat (map int_args (issued s (animation R 0 s))))"
proof -
  have "list_all (list_all int_range \<circ> int_args) (issued s (animation R 0 s))"
    unfolding animation_issued
  proof (rule list_all_concat_map)
    fix x assume "x \<in> set (loop_xs (getmaxx s) 0)"
    then have "0 \<le> x \<and> x < getmaxx s" by (rule loop_xs_bounds)
    with assms have "0 \<le> x" "x \<le> INT_MAX - 121" by simp_all
    then have "list_all int_range (concat (map int_args (issued s (frame R x s))))"
      by (rule frame_args_in_range)
    then show "list_all (list_all int_range \<circ> int_args) (issued s (frame R x s))"
      by (simp add: list_all_iff)
  qed
  then show ?thesis by (simp add: list_all_iff)
qed

lemma loop_steps_in_range:
  assumes "w \<le> INT_MAX - 120"
  shows "list_all int_range (loop_xs w 0) \<and> list_all int_range (map (\<lambda>x. x + 5) (loop_xs w 0))"
proof -
  have "\<And>x. x \<in> set (loop_xs w 0) \<Longrightarrow> int_range x \<and> int_range (x + 5)"
  proof -
    fix x assume "x \<in> set (loop_xs w 0)"
    then have "0 \<le> x \<and> x < w" by (rule loop_xs_bounds)
    with assms show "int_range x \<and> int_range (x + 5)"
      by (simp add: int_range_def INT_MAX_def INT_MIN_def)
  qed
  then show ?thesis by (simp add: list_all_iff)
qed






subsection \<open>What \<open>drawJet\<close> issues\<close>

text \<open>
  Claim C1. For every anchor point \<open>(x, y)\<close> and every state, \<open>drawJet\<close> issues exactly one
  rectangle, then four line segments, then two filled ellipses, in that order: the body
  rectangle with its flood fill first, then the two tail-fin segments (from
  \<open>(x + 100, y + 10)\<close>), then the two nose segments (through \<open>(x - 20, y + 10)\<close>), then the
  two window ellipses.
\<close>

theorem drawJet_issues_rectangle_segments_ellipses:
  "issued s (drawJet R x y s) =
     [Setcolor WHITE, Setfillstyle SOLID_FILL WHITE,
      Rectangle x y (x + 100) (y + 20), Floodfill (x + 1) (y + 1) WHITE,
      Line (x + 100) (y + 10) (x + 120) y, Line (x + 100) (y + 10) (x + 120) (y + 20),
      Line x y (x - 20) (y + 10), Line (x - 20) (y + 10) x (y + 20),
      Setfillstyle SOLID_FILL BLUE,
      Fillellipse (x + 30) (y + 10) 5 5, Fillellipse (x + 50) (y + 10) 5 5]
   \<and> shapes (issued s (drawJet R x y s)) =
     [Rect, Segment, Segment, Segment, Segment, Ellipse, Ellipse]"
  by (simp add: issued_def drawJet_calls shapes_def List.map_filter_simps)

theorem drawJet_issues_witness:
  "shapes (issued (device 639 479 [13]) (drawJet dots 0 200 (device 639 479 [13]))) =
     [Rect, Segment, Segment, Segment, Segment, Ellipse, Ellipse]"
  by (rule drawJet_issues_rectangle_segments_ellipses
    [where s = "device 639 479 [13]" and R = dots and x = 0 and y = 200, THEN conjunct2])

subsection \<open>The attributes \<open>drawJet\<close> leaves behind\<close>

text \<open>
  Claim C9. \<open>drawJet\<close> changes the process-wide drawing attributes and does not restore
  them: after every call the fill style is \<open>(SOLID_FILL, BLUE)\<close> and the drawing colour is
  \<open>WHITE\<close>, whatever they were before the call.
\<close>

theorem drawJet_leaves_fill_blue_color_white:
  "fillstyle (drawJet R x y s) = (SOLID_FILL, BLUE)
   \<and> color (drawJet R x y s) = WHITE
   \<and> fillstyle (drawJet R x y (s\<lparr>color := c, fillstyle := f\<rparr>)) = (SOLID_FILL, BLUE)
   \<and> color (drawJet R x y (s\<lparr>color := c, fillstyle := f\<rparr>)) = WHITE"
  by simp

theorem drawJet_leaves_witness:
  "fillstyle (device 639 479 [13]) = (SOLID_FILL, WHITE)
   \<and> fillstyle (drawJet dots 0 200 (device 639 479 [13])) = (SOLID_FILL, BLUE)
   \<and> color (drawJet dots 0 200 (device 639 479 [13]\<lparr>color := RED\<rparr>)) = WHITE"
  using drawJet_leaves_fill_blue_color_white
    [where R = dots and x = 0 and y = 200 and s = "device 639 479 [13]"
       and c = RED and f = "(SOLID_FILL, WHITE)"]
  by (simp add: device_def)

subsection \<open>The animation loop\<close>

text \<open>
  The specification's surface width is the bound of the loop, the value \<open>getmaxx()\<close>
  returns.

  Claim C2. For every bound \<open>getmaxx() \<le> INT_MAX - 120\<close> the loop terminates: from \<open>x = 0\<close>
  it is the body run once for each value of \<open>loop_xs\<close>, which are \<open>0, 5, 10, \<dots>\<close> below the
  bound, exactly \<open>\<lceil>getmaxx() / 5\<rceil>\<close> of them, and the first value of \<open>x\<close> that is not drawn
  has reached the bound. The log of the loop is the logs of these iterations one after the
  other, 13 calls each. No \<open>x + 5\<close> and no argument of a call leaves the range of \<open>int\<close>.
  For a bound of 800 (and of 799, which a surface 800 pixels wide reports) there are 160
  iterations and the last \<open>x\<close> drawn is 795.
\<close>

theorem animation_runs_ceil_width_over_five_frames:
  assumes range: "getmaxx s \<le> INT_MAX - 120"
  shows
  "animation R 0 s = fold (frame R) (loop_xs (getmaxx s) 0) s
   \<and> loop_xs (getmaxx s) 0 = map (\<lambda>k. 5 * int k) [0..<nat \<lceil>real_of_int (getmaxx s) / 5\<rceil>]
   \<and> length (loop_xs (getmaxx s) 0) = nat \<lceil>real_of_int (getmaxx s) / 5\<rceil>
   \<and> getmaxx s \<le> 5 * int (length (loop_xs (getmaxx s) 0))
   \<and> issued s (animation R 0 s) =
       concat (map (\<lambda>x. issued s (frame R x s)) (loop_xs (getmaxx s) 0))
   \<and> length (issued s (animation R 0 s)) = 13 * nat \<lceil>real_of_int (getmaxx s) / 5\<rceil>
   \<and> list_all int_range (map (\<lambda>x. x + 5) (loop_xs (getmaxx s) 0))
   \<and> list_all int_range (concat (map int_args (issued s (animation R 0 s))))
   \<and> (getmaxx s = 800 \<or> getmaxx s = 799 \<longrightarrow>
        length (loop_xs (getmaxx s) 0) = 160 \<and> last (loop_xs (getmaxx s) 0) = 795)"
proof (intro conjI impI)
  show "animation R 0 s = fold (frame R) (loop_xs (getmaxx s) 0) s"
    by (rule animation_fold)
  show "loop_xs (getmaxx s) 0 = map (\<lambda>k. 5 * int k) [0..<nat \<lceil>real_of_int (getmaxx s) / 5\<rceil>]"
    by (rule loop_xs_ceil)
  show "length (loop_xs (getmaxx s) 0) = nat \<lceil>real_of_int (getmaxx s) / 5\<rceil>"
    by (rule loop_xs_length)
  show "getmaxx s \<le> 5 * int (length (loop_xs (getmaxx s) 0))"
    by (rule loop_xs_exit)
  show "issued s (animation R 0 s) =
      concat (map (\<lambda>x. issued s (frame R x s)) (loop_xs (getmaxx s) 0))"
    by (rule animation_issued)
  show "length (issued s (animation R 0 s)) = 13 * nat \<lceil>real_of_int (getmaxx s) / 5\<rceil>"
    by (simp only: animation_issued_length loop_xs_length)
  show "list_all int_range (map (\<lambda>x. x + 5) (loop_xs (getmaxx s) 0))"
    using loop_steps_in_range [OF range] by (rule conjunct2)
  show "list_all int_range (concat (map int_args (issued s (animation R 0 s))))"
    using range by (rule animation_args_in_range)
next
  assume "getmaxx s = 800 \<or> getmaxx s = 799"
  then show "length (loop_xs (getmaxx s) 0) = 160"
    by (auto simp: loop_xs_800 loop_xs_799)
next
  assume "getmaxx s = 800 \<or> getmaxx s = 799"
  then show "last (loop_xs (getmaxx s) 0) = 795"
    by (auto simp: loop_xs_last)
qed

theorem animation_runs_witness:
  "getmaxx (device 800 600 [13]) \<le> INT_MAX - 120
   \<and> getmaxx (device 800 600 [13]) = 800
   \<and> animation dots 0 (device 800 600 [13]) =
       fold (frame dots) (map (\<lambda>k. 5 * int k) [0..<160]) (device 800 600 [13])
   \<and> length (loop_xs (getmaxx (device 800 600 [13])) 0) = 160
   \<and> last (loop_xs (getmaxx (device 800 600 [13])) 0) = 795
   \<and> length (issued (device 800 600 [13]) (animation dots 0 (device 800 600 [13]))) = 2080"
proof -
  have w: "getmaxx (device 800 600 [13]) = 800"
    by (simp add: getmaxx_def device_def)
  have r: "getmaxx (device 800 600 [13]) \<le> INT_MAX - 120"
    by (simp add: w INT_MAX_def)
  note t = animation_runs_ceil_width_over_five_frames
    [where R = dots and s = "device 800 600 [13]", OF r]
  from t have a: "animation dots 0 (device 800 600 [13]) =
      fold (frame dots) (loop_xs 800 0) (device 800 600 [13])"
    unfolding w by (rule conjunct1)
  from t w have b: "length (loop_xs (getmaxx (device 800 600 [13])) 0) = 160
      \<and> last (loop_xs (getmaxx (device 800 600 [13])) 0) = 795"
    by blast
  from t have "length (issued (device 800 600 [13]) (animation dots 0 (device 800 600 [13]))) =
      13 * nat \<lceil>real_of_int (getmaxx (device 800 600 [13])) / 5\<rceil>" by blast
  then have c: "length (issued (device 800 600 [13]) (animation dots 0 (device 800 600 [13]))) = 2080"
    by (simp add: w ceil5)
  from a b c w r show ?thesis by (simp only: loop_xs_800 simp_thms)
qed


text \<open>
  Claim C8. For every bound \<open>getmaxx() \<le> INT_MAX - 120\<close>, across the animation \<open>x\<close> never
  decreases: the \<open>i\<close>-th iteration runs with \<open>x = 5 * i\<close>, and no \<open>x + 5\<close> overflows. No frame
  is skipped and the loop does not leave early: the values drawn are exactly the multiples
  of 5 from 0 that are below the bound, and the log of the loop is the logs of their frames
  in this order. The loop stops at the first multiple of 5 that is not below the bound
  (\<open>x \<ge> getmaxx()\<close>).
\<close>

theorem loop_variable_grows_by_five_without_gaps:
  assumes range: "getmaxx s \<le> INT_MAX - 120"
  shows
  "animation R 0 s = fold (frame R) (loop_xs (getmaxx s) 0) s
   \<and> sorted (loop_xs (getmaxx s) 0)
   \<and> (\<forall>i. i < length (loop_xs (getmaxx s) 0) \<longrightarrow> loop_xs (getmaxx s) 0 ! i = 5 * int i)
   \<and> set (loop_xs (getmaxx s) 0) = {x. 0 \<le> x \<and> x < getmaxx s \<and> 5 dvd x}
   \<and> getmaxx s \<le> 5 * int (length (loop_xs (getmaxx s) 0))
   \<and> list_all int_range (map (\<lambda>x. x + 5) (loop_xs (getmaxx s) 0))
   \<and> issued s (animation R 0 s) =
       concat (map (\<lambda>x. issued s (frame R x s)) (loop_xs (getmaxx s) 0))"
proof (intro conjI allI impI)
  show "animation R 0 s = fold (frame R) (loop_xs (getmaxx s) 0) s"
    by (rule animation_fold)
  have "sorted_wrt (\<lambda>a b. a < b) (loop_xs (getmaxx s) 0)" by (rule loop_xs_sorted)
  then show "sorted (loop_xs (getmaxx s) 0)"
    by (rule sorted_wrt_mono_rel [rotated]) simp
  show "set (loop_xs (getmaxx s) 0) = {x. 0 \<le> x \<and> x < getmaxx s \<and> 5 dvd x}"
    by (rule loop_xs_set)
  show "getmaxx s \<le> 5 * int (length (loop_xs (getmaxx s) 0))"
    by (rule loop_xs_exit)
  show "list_all int_range (map (\<lambda>x. x + 5) (loop_xs (getmaxx s) 0))"
    using loop_steps_in_range [OF range] by (rule conjunct2)
  show "issued s (animation R 0 s) =
      concat (map (\<lambda>x. issued s (frame R x s)) (loop_xs (getmaxx s) 0))"
    by (rule animation_issued)
next
  fix i assume "i < length (loop_xs (getmaxx s) 0)"
  then show "loop_xs (getmaxx s) 0 ! i = 5 * int i" by (rule loop_xs_nth)
qed

theorem loop_variable_witness:
  "getmaxx (device 12 479 [13]) \<le> INT_MAX - 120
   \<and> loop_xs (getmaxx (device 12 479 [13])) 0 = [0, 5, 10]
   \<and> animation dots 0 (device 12 479 [13]) = fold (frame dots) [0, 5, 10] (device 12 479 [13])
   \<and> sorted (loop_xs (getmaxx (device 12 479 [13])) 0)
   \<and> loop_xs (getmaxx (device 12 479 [13])) 0 ! 2 = 10
   \<and> getmaxx (device 12 479 [13]) \<le> 5 * int (length (loop_xs (getmaxx (device 12 479 [13])) 0))"
proof -
  have l: "loop_xs (getmaxx (device 12 479 [13])) 0 = [0, 5, 10]"
    by (simp add: getmaxx_def device_def loop_xs_closed upt_rec)
  have r: "getmaxx (device 12 479 [13]) \<le> INT_MAX - 120"
    by (simp add: getmaxx_def device_def INT_MAX_def)
  note t = loop_variable_grows_by_five_without_gaps
    [where R = dots and s = "device 12 479 [13]", OF r]
  from t have a: "animation dots 0 (device 12 479 [13]) =
      fold (frame dots) (loop_xs (getmaxx (device 12 479 [13])) 0) (device 12 479 [13])"
    by (rule conjunct1)
  from t have "sorted (loop_xs (getmaxx (device 12 479 [13])) 0)" by blast
  moreover from t have "2 < length (loop_xs (getmaxx (device 12 479 [13])) 0) \<longrightarrow>
      loop_xs (getmaxx (device 12 479 [13])) 0 ! 2 = 5 * int 2" by blast
  then have "loop_xs (getmaxx (device 12 479 [13])) 0 ! 2 = 10" by (simp add: l)
  moreover from t have "getmaxx (device 12 479 [13])
      \<le> 5 * int (length (loop_xs (getmaxx (device 12 479 [13])) 0))" by blast
  moreover from a have "animation dots 0 (device 12 479 [13]) =
      fold (frame dots) [0, 5, 10] (device 12 479 [13])" by (simp only: l)
  ultimately show ?thesis using l r by blast
qed

subsection \<open>The jet and the edges of the surface\<close>





subsection \<open>Clearing and redrawing\<close>

text \<open>
  Claim C4. Every iteration of the loop clears the whole surface first: \<open>cleardevice\<close> is
  the first call of the body and leaves every pixel in the background colour. After the
  iteration the surface is the jet of that iteration drawn on the plain background; it
  does not depend on what the surface held before, in particular nothing of the frame
  before persists, after any number of iterations.
\<close>

theorem frame_clears_surface_before_drawing:
  "issued s (frame R x s) =
     [Cleardevice,
      Setcolor WHITE, Setfillstyle SOLID_FILL WHITE,
      Rectangle x 200 (x + 100) 220, Floodfill (x + 1) 201 WHITE,
      Line (x + 100) 210 (x + 120) 200, Line (x + 100) 210 (x + 120) 220,
      Line x 200 (x - 20) 210, Line (x - 20) 210 x 220,
      Setfillstyle SOLID_FILL BLUE,
      Fillellipse (x + 30) 210 5 5, Fillellipse (x + 50) 210 5 5,
      Delay 30]
   \<and> pixels (cleardevice s) = blank (bkcolor s)
   \<and> pixels (frame R x s) = pixels (drawJet R x 200 (s\<lparr>pixels := blank (bkcolor s)\<rparr>))
   \<and> pixels (frame R x (s\<lparr>pixels := p\<rparr>)) = pixels (frame R x s)
   \<and> pixels (frame R x (frame R x' s)) = pixels (frame R x s)
   \<and> (xs \<noteq> [] \<longrightarrow> pixels (fold (frame R) xs s) =
         pixels (drawJet R (last xs) 200 (s\<lparr>pixels := blank (bkcolor s)\<rparr>)))"
proof (intro conjI impI)
  show "issued s (frame R x s) =
     [Cleardevice,
      Setcolor WHITE, Setfillstyle SOLID_FILL WHITE,
      Rectangle x 200 (x + 100) 220, Floodfill (x + 1) 201 WHITE,
      Line (x + 100) 210 (x + 120) 200, Line (x + 100) 210 (x + 120) 220,
      Line x 200 (x - 20) 210, Line (x - 20) 210 x 220,
      Setfillstyle SOLID_FILL BLUE,
      Fillellipse (x + 30) 210 5 5, Fillellipse (x + 50) 210 5 5,
      Delay 30]"
    by (simp add: issued_def frame_calls)
  show "pixels (cleardevice s) = blank (bkcolor s)"
    by (simp add: cleardevice_def issue_def)
  show "pixels (frame R x s) = pixels (drawJet R x 200 (s\<lparr>pixels := blank (bkcolor s)\<rparr>))"
    by (rule frame_pixels)
  show "pixels (frame R x (s\<lparr>pixels := p\<rparr>)) = pixels (frame R x s)"
    by (rule frame_pixels_cong) simp
  show "pixels (frame R x (frame R x' s)) = pixels (frame R x s)"
    by (rule frame_pixels_cong) simp
next
  assume "xs \<noteq> []"
  then show "pixels (fold (frame R) xs s) =
      pixels (drawJet R (last xs) 200 (s\<lparr>pixels := blank (bkcolor s)\<rparr>))"
    by (rule fold_frame_pixels)
qed

theorem frame_clears_witness:
  "[0, 5] \<noteq> ([] :: int list)
   \<and> pixels (fold (frame dots) [0, 5] (device 639 479 [13])) =
       pixels (drawJet dots 5 200 (device 639 479 [13]))
   \<and> pixels (fold (frame dots) [0, 5] (device 639 479 [13])) (0, 200) = BLACK
   \<and> pixels (fold (frame dots) [0, 5] (device 639 479 [13])) (5, 200) = WHITE"
proof -
  have ne: "[0, 5] \<noteq> ([] :: int list)" by simp
  have d: "(device 639 479 [13])\<lparr>pixels := blank (bkcolor (device 639 479 [13]))\<rparr>
      = device 639 479 [13]"
    by (simp add: device_def)
  from frame_clears_surface_before_drawing
    [where R = dots and s = "device 639 479 [13]" and xs = "[0, 5]"] ne
  have e: "pixels (fold (frame dots) [0, 5] (device 639 479 [13])) =
      pixels (drawJet dots 5 200 (device 639 479 [13]))"
    unfolding d by simp
  have "pixels (drawJet dots 5 200 (device 639 479 [13])) (0, 200) = BLACK"
    by (simp add: drawJet_pixels device_def blank_def)
  moreover have "pixels (drawJet dots 5 200 (device 639 479 [13])) (5, 200) = WHITE"
    by (simp add: drawJet_pixels device_def blank_def)
  ultimately show ?thesis using ne e by simp
qed

text \<open>
  Claim C6. \<open>drawJet\<close> with the same arguments on surfaces with the same content and the
  same background colour gives the same pixels, whatever the drawing colour and fill style
  were before the call; so on two identically cleared surfaces, and on a surface cleared
  again after a first call, the output is pixel for pixel the same.
\<close>

theorem drawJet_same_pixels_on_same_surface:
  "(pixels sa = pixels sb \<and> bkcolor sa = bkcolor sb \<longrightarrow>
      pixels (drawJet R x y sa) = pixels (drawJet R x y sb))
   \<and> (bkcolor sa = bkcolor sb \<longrightarrow>
      pixels (drawJet R x y (cleardevice sa)) = pixels (drawJet R x y (cleardevice sb)))
   \<and> pixels (drawJet R x y (cleardevice (drawJet R x y (cleardevice s)))) =
      pixels (drawJet R x y (cleardevice s))"
proof (intro conjI impI)
  assume "pixels sa = pixels sb \<and> bkcolor sa = bkcolor sb"
  then show "pixels (drawJet R x y sa) = pixels (drawJet R x y sb)"
    by (simp add: drawJet_pixels)
next
  assume "bkcolor sa = bkcolor sb"
  then show "pixels (drawJet R x y (cleardevice sa)) = pixels (drawJet R x y (cleardevice sb))"
    by (simp add: drawJet_pixels cleardevice_def issue_def)
next
  show "pixels (drawJet R x y (cleardevice (drawJet R x y (cleardevice s)))) =
      pixels (drawJet R x y (cleardevice s))"
    by (rule drawJet_pixels_cong) (simp_all add: cleardevice_def issue_def)
qed

theorem drawJet_same_pixels_witness:
  "bkcolor (device 639 479 [13]) = bkcolor (setfillstyle HATCH_FILL RED (setcolor GREEN (device 639 479 [13])))
   \<and> pixels (drawJet dots 0 200 (cleardevice (device 639 479 [13]))) =
     pixels (drawJet dots 0 200 (cleardevice (setfillstyle HATCH_FILL RED (setcolor GREEN (device 639 479 [13])))))"
proof -
  have b: "bkcolor (device 639 479 [13]) =
      bkcolor (setfillstyle HATCH_FILL RED (setcolor GREEN (device 639 479 [13])))"
    by (simp add: setfillstyle_def setcolor_def issue_def)
  with drawJet_same_pixels_on_same_surface
    [where R = dots and x = 0 and y = 200 and sa = "device 639 479 [13]"
       and sb = "setfillstyle HATCH_FILL RED (setcolor GREEN (device 639 479 [13]))"]
  show ?thesis by blast
qed

subsection \<open>Colours\<close>

text \<open>
  Claim C7. The background colour is blue: \<open>main\<close> sets it before the first clear and
  nothing changes it, through every frame and to the end. The body rectangle, its flood
  fill, the fin and the nose are drawn with drawing colour and fill colour white. The two
  window ellipses are filled with solid blue, after the flood fill of the body, and lie
  strictly inside the body rectangle.
\<close>

theorem sky_blue_jet_white_windows_blue:
  "bkcolor (startup s0) = BLUE
   \<and> pixels (startup s0) = blank BLUE
   \<and> bkcolor (fold (frame R) xs (startup s0)) = BLUE
   \<and> bkcolor (snd (main R s0)) = BLUE
   \<and> pixels (drawJet R x y s) =
     (R WHITE (SOLID_FILL, BLUE) (bkcolor s) (Fillellipse (x + 50) (y + 10) 5 5)
     (R WHITE (SOLID_FILL, BLUE) (bkcolor s) (Fillellipse (x + 30) (y + 10) 5 5)
     (R WHITE (SOLID_FILL, WHITE) (bkcolor s) (Line (x - 20) (y + 10) x (y + 20))
     (R WHITE (SOLID_FILL, WHITE) (bkcolor s) (Line x y (x - 20) (y + 10))
     (R WHITE (SOLID_FILL, WHITE) (bkcolor s) (Line (x + 100) (y + 10) (x + 120) (y + 20))
     (R WHITE (SOLID_FILL, WHITE) (bkcolor s) (Line (x + 100) (y + 10) (x + 120) y)
     (R WHITE (SOLID_FILL, WHITE) (bkcolor s) (Floodfill (x + 1) (y + 1) WHITE)
     (R WHITE (SOLID_FILL, WHITE) (bkcolor s) (Rectangle x y (x + 100) (y + 20))
        (pixels s)))))))))
   \<and> inside (Fillellipse (x + 30) (y + 10) 5 5) (Rectangle x y (x + 100) (y + 20))
   \<and> inside (Fillellipse (x + 50) (y + 10) 5 5) (Rectangle x y (x + 100) (y + 20))"
  by (simp add: main_def inside_def drawJet_pixels)

theorem sky_blue_witness:
  "bkcolor (device 639 479 [13]) = BLACK
   \<and> bkcolor (snd (main dots (device 639 479 [13]))) = BLUE
   \<and> pixels (drawJet dots 0 200 (startup (device 639 479 [13]))) (0, 200) = WHITE
   \<and> pixels (drawJet dots 0 200 (startup (device 639 479 [13]))) (30, 210) = BLUE
   \<and> pixels (drawJet dots 0 200 (startup (device 639 479 [13]))) (0, 0) = BLUE"
proof -
  note t = sky_blue_jet_white_windows_blue
    [where R = dots and ?s0.0 = "device 639 479 [13]" and x = 0 and y = 200
       and s = "startup (device 639 479 [13])"]
  have b: "bkcolor (device 639 479 [13]) = BLACK" by (simp add: device_def)
  show ?thesis using t b by (simp add: blank_def)
qed


subsection \<open>After the loop\<close>

text \<open>
  Claim C5. After the loop \<open>main\<close> draws one text prompt, waits once for one key, then
  calls \<open>closegraph\<close> and returns 0: these three calls are all it issues after the loop,
  one key is removed from the keyboard buffer, and the prompt is the only change to the
  surface. Without any key the process stays in the wait.
\<close>

theorem finish_prompts_once_waits_once_closes:
  "main R s0 = finish R (animation R 0 (startup s0))
   \<and> (kbd s = k # ks \<longrightarrow>
        fst (finish R s) = Exit 0
        \<and> issued s (snd (finish R s)) =
            [Outtextxy (c_div (getmaxx s) 2 - 100) (getmaxy s - 30) ''Press any key to exit...'',
             Getch, Closegraph]
        \<and> kbd (snd (finish R s)) = ks
        \<and> pixels (snd (finish R s)) = R (color s) (fillstyle s) (bkcolor s)
            (Outtextxy (c_div (getmaxx s) 2 - 100) (getmaxy s - 30) ''Press any key to exit...'')
            (pixels s))
   \<and> (kbd s = [] \<longrightarrow>
        fst (finish R s) = Blocked
        \<and> issued s (snd (finish R s)) =
            [Outtextxy (c_div (getmaxx s) 2 - 100) (getmaxy s - 30) ''Press any key to exit...'',
             Getch])
   \<and> (kbd s0 = k # ks \<longrightarrow>
        fst (main R s0) = Exit 0
        \<and> issued (animation R 0 (startup s0)) (snd (main R s0)) =
            [Outtextxy (c_div (getmaxx s0) 2 - 100) (getmaxy s0 - 30) ''Press any key to exit...'',
             Getch, Closegraph]
        \<and> kbd (snd (main R s0)) = ks)"
proof (intro conjI impI)
  show "main R s0 = finish R (animation R 0 (startup s0))" by (rule main_def)
next
  assume k: "kbd s = k # ks"
  show "fst (finish R s) = Exit 0" by (simp add: finish_key [OF k])
  show "issued s (snd (finish R s)) =
      [Outtextxy (c_div (getmaxx s) 2 - 100) (getmaxy s - 30) ''Press any key to exit...'',
       Getch, Closegraph]"
    by (simp add: finish_key [OF k] issued_def getmaxx_def getmaxy_def)
  show "kbd (snd (finish R s)) = ks" by (simp add: finish_key [OF k])
  show "pixels (snd (finish R s)) = R (color s) (fillstyle s) (bkcolor s)
      (Outtextxy (c_div (getmaxx s) 2 - 100) (getmaxy s - 30) ''Press any key to exit...'')
      (pixels s)"
    by (simp add: finish_key [OF k] getmaxx_def getmaxy_def)
next
  assume k: "kbd s = []"
  show "fst (finish R s) = Blocked" by (simp add: finish_no_key [OF k])
  show "issued s (snd (finish R s)) =
      [Outtextxy (c_div (getmaxx s) 2 - 100) (getmaxy s - 30) ''Press any key to exit...'',
       Getch]"
    by (simp add: finish_no_key [OF k] issued_def getmaxx_def getmaxy_def)
next
  assume "kbd s0 = k # ks"
  then have k: "kbd (animation R 0 (startup s0)) = k # ks" by simp
  show "fst (main R s0) = Exit 0" by (simp add: main_def finish_key [OF k])
  show "issued (animation R 0 (startup s0)) (snd (main R s0)) =
      [Outtextxy (c_div (getmaxx s0) 2 - 100) (getmaxy s0 - 30) ''Press any key to exit...'',
       Getch, Closegraph]"
    by (simp add: main_def finish_key [OF k] issued_def getmaxx_def getmaxy_def)
  show "kbd (snd (main R s0)) = ks" by (simp add: main_def finish_key [OF k])
qed

theorem finish_prompts_witness:
  "kbd (device 639 479 [13]) = [13]
   \<and> fst (main dots (device 639 479 [13])) = Exit 0
   \<and> issued (animation dots 0 (startup (device 639 479 [13])))
        (snd (main dots (device 639 479 [13]))) =
       [Outtextxy 219 449 ''Press any key to exit...'', Getch, Closegraph]
   \<and> kbd (snd (main dots (device 639 479 [13]))) = []"
proof -
  have k: "kbd (device 639 479 [13]) = [13]" by (simp add: device_def)
  have g: "c_div (getmaxx (device 639 479 [13])) 2 - 100 = 219"
    "getmaxy (device 639 479 [13]) - 30 = 449"
    by (simp_all add: device_def getmaxx_def getmaxy_def c_div_def)
  from finish_prompts_once_waits_once_closes
    [where R = dots and ?s0.0 = "device 639 479 [13]" and k = 13 and ks = "[]"] k
  show ?thesis unfolding g by blast
qed

end
